theory Spec2Isabelle
  imports Complex_Main "HOL-Library.Word"
begin

section \<open>JavaScript values used by the dashboard\<close>

text \<open>
  A JavaScript string is a sequence of UTF-16 code units. String literals of the source
  are written \<open>lit ''...''\<close>; every literal of the program is ASCII.
\<close>

type_synonym code_unit = "16 word"
type_synonym jsstring = "code_unit list"

definition lit :: "string \<Rightarrow> jsstring" where
  "lit s = map of_char s"

text \<open>
  A JavaScript \<open>number\<close> is a double. A finite double is kept as the digits that
  \<open>Number::toString\<close> prints for it: \<open>Finite neg s n\<close> is the double of sign \<open>neg\<close> whose
  shortest decimal that reads back as the same double has the digits of \<open>s\<close> (\<open>k\<close> of
  them, none a trailing zero) and the value \<open>s * 10 ^ (n - k)\<close>; zero is \<open>s = 0\<close>, with
  its sign. Every double is one of these values. Probabilities and thresholds are numbers
  compared with \<open>>=\<close> only; every finite double is a real and the comparison of doubles
  is the comparison of their values, so they are modelled as \<open>real\<close>.
\<close>

datatype number = NaN | PosInfinity | NegInfinity | Finite bool nat int

text \<open>Values that can be thrown: an object carrying a string \<open>message\<close> (every \<open>Error\<close>),
  or anything else, represented by what \<open>String(e)\<close> yields for it.\<close>

datatype thrown = Error jsstring | NonError jsstring

subsection \<open>Number to string, as a template literal does it\<close>

function decimal :: "nat \<Rightarrow> jsstring" where
  "decimal n = (if n < 10 then [of_nat (48 + n)]
                else decimal (n div 10) @ [of_nat (48 + n mod 10)])"
  by pat_completeness auto
termination
  by (relation "measure id") auto

declare decimal.simps [simp del]

text \<open>\<open>Number::toString\<close> in radix 10: plain digits while the decimal exponent \<open>n\<close> is
  between -5 and 21, exponent notation otherwise.\<close>

definition finite_toString :: "nat \<Rightarrow> int \<Rightarrow> jsstring" where
  "finite_toString s n =
     (let ds = decimal s; k = int (length ds) in
      if - 5 \<le> n \<and> n \<le> 21 then
        (if k \<le> n then ds @ replicate (nat (n - k)) 48
         else if 0 < n then take (nat n) ds @ [46] @ drop (nat n) ds
         else lit ''0.'' @ replicate (nat (- n)) 48 @ ds)
      else
        (if k = 1 then ds else take 1 ds @ [46] @ drop 1 ds) @ [101] @
        (if n < 0 then [45] else [43]) @ decimal (nat \<bar>n - 1\<bar>))"

fun Number_toString :: "number \<Rightarrow> jsstring" where
  "Number_toString NaN = lit ''NaN''"
| "Number_toString PosInfinity = lit ''Infinity''"
| "Number_toString NegInfinity = lit ''-Infinity''"
| "Number_toString (Finite neg s n) =
     (if s = 0 then lit ''0''
      else (if neg then lit ''-'' else []) @ finite_toString s n)"

subsection \<open>The double nearest to an integer\<close>

text \<open>
  An integer up to \<open>2^53\<close> is a double. A larger one is rounded to 53 significant bits,
  ties to the even mantissa, and to infinity from \<open>2^1024\<close> on.
\<close>

function bit_length :: "nat \<Rightarrow> nat" where
  "bit_length m = (if m = 0 then 0 else Suc (bit_length (m div 2)))"
  by pat_completeness auto
termination
  by (relation "measure id") auto

declare bit_length.simps [simp del]

definition round_to_double :: "nat \<Rightarrow> nat option" where
  "round_to_double m =
     (if m \<le> 2 ^ 53 then Some m
      else
        let e = bit_length m - 53;
            q = m div 2 ^ e;
            r = m mod 2 ^ e;
            half = 2 ^ (e - 1);
            x = (if half < r \<or> (r = half \<and> odd q) then q + 1 else q) * 2 ^ e
        in if 2 ^ 1024 \<le> x then None else Some x)"

text \<open>
  The digits of an integer-valued double \<open>x\<close>: the fewest digits \<open>s\<close> (\<open>k\<close> of them) and
  the exponent \<open>n\<close> with \<open>s * 10 ^ (n - k)\<close> rounding to \<open>x\<close>; among several, the
  nearest to \<open>x\<close>, and the even \<open>s\<close> of two equally near. Up to \<open>2^53\<close> these are the
  integer's own digits without its trailing zeros.
\<close>

function strip_zeros :: "nat \<Rightarrow> nat" where
  "strip_zeros m = (if 0 < m \<and> m mod 10 = 0 then strip_zeros (m div 10) else m)"
  by pat_completeness auto
termination
  by (relation "measure id") auto

declare strip_zeros.simps [simp del]

definition digit_candidates :: "nat \<Rightarrow> nat \<Rightarrow> (nat \<times> nat) list" where
  "digit_candidates x k =
     (let d = length (decimal x) in
      concat (map (\<lambda>n. map (\<lambda>s. (s, n))
                (filter (\<lambda>s. 10 ^ (k - 1) \<le> s \<and> s < 10 ^ k \<and>
                              round_to_double (s * 10 ^ (n - k)) = Some x)
                   [x div 10 ^ (n - k), x div 10 ^ (n - k) + 1]))
              [d, d + 1]))"

definition closer :: "nat \<Rightarrow> nat \<Rightarrow> nat \<times> nat \<Rightarrow> nat \<times> nat \<Rightarrow> nat \<times> nat" where
  "closer x k a b =
     (let da = \<bar>int (fst a * 10 ^ (snd a - k)) - int x\<bar>;
          db = \<bar>int (fst b * 10 ^ (snd b - k)) - int x\<bar>
      in if db < da \<or> (db = da \<and> even (fst b) \<and> odd (fst a)) then b else a)"

definition shortest_digits :: "nat \<Rightarrow> nat \<times> nat" where
  "shortest_digits x =
     (if x \<le> 2 ^ 53 then (strip_zeros x, length (decimal x))
      else
        case List.find (\<lambda>k. digit_candidates x k \<noteq> []) [1 ..< Suc (length (decimal x))] of
          None \<Rightarrow> (strip_zeros x, length (decimal x))
        | Some k \<Rightarrow>
            (case digit_candidates x k of
               [] \<Rightarrow> (strip_zeros x, length (decimal x))
             | c # cs \<Rightarrow> foldl (closer x k) c cs))"

text \<open>\<open>Integer i\<close> is the number an integer literal or an integer result denotes: the
  double nearest to \<open>i\<close>.\<close>

definition Integer :: "int \<Rightarrow> number" where
  "Integer i =
     (if i = 0 then Finite False 0 0
      else
        case round_to_double (nat \<bar>i\<bar>) of
          None \<Rightarrow> (if i < 0 then NegInfinity else PosInfinity)
        | Some x \<Rightarrow> (case shortest_digits x of (s, n) \<Rightarrow> Finite (i < 0) s (int n)))"

subsection \<open>encodeURIComponent\<close>

text \<open>
  ECMAScript's \<open>Encode\<close> with the unreserved set of \<open>encodeURIComponent\<close>: letters,
  digits and \<open>- _ . ! ~ * ' ( )\<close> are copied; every other code point is written as the
  percent-escaped octets of its UTF-8 encoding; a surrogate code unit that is not part of
  a pair throws a \<open>URIError\<close>.
\<close>

definition uriUnescaped :: "code_unit \<Rightarrow> bool" where
  "uriUnescaped c \<longleftrightarrow>
     (65 \<le> c \<and> c \<le> 90) \<or> (97 \<le> c \<and> c \<le> 122) \<or> (48 \<le> c \<and> c \<le> 57) \<or>
     c = 45 \<or> c = 95 \<or> c = 46 \<or> c = 33 \<or> c = 126 \<or> c = 42 \<or> c = 39 \<or> c = 40 \<or> c = 41"

definition is_high_surrogate :: "code_unit \<Rightarrow> bool" where
  "is_high_surrogate c \<longleftrightarrow> 0xD800 \<le> c \<and> c \<le> 0xDBFF"

definition is_low_surrogate :: "code_unit \<Rightarrow> bool" where
  "is_low_surrogate c \<longleftrightarrow> 0xDC00 \<le> c \<and> c \<le> 0xDFFF"

definition utf8_octets :: "nat \<Rightarrow> nat list" where
  "utf8_octets v =
     (if v < 0x80 then [v]
      else if v < 0x800 then [0xC0 + v div 64, 0x80 + v mod 64]
      else if v < 0x10000 then [0xE0 + v div 4096, 0x80 + v div 64 mod 64, 0x80 + v mod 64]
      else [0xF0 + v div 262144, 0x80 + v div 4096 mod 64, 0x80 + v div 64 mod 64,
            0x80 + v mod 64])"

definition hex_digit :: "nat \<Rightarrow> code_unit" where
  "hex_digit d = (if d < 10 then of_nat (48 + d) else of_nat (55 + d))"

definition percent_octet :: "nat \<Rightarrow> jsstring" where
  "percent_octet b = [37, hex_digit (b div 16), hex_digit (b mod 16)]"

definition escape_code_point :: "nat \<Rightarrow> jsstring" where
  "escape_code_point v = concat (map percent_octet (utf8_octets v))"

definition URIError :: thrown where
  "URIError = Error (lit ''URI malformed'')"

fun encodeURIComponent :: "jsstring \<Rightarrow> thrown + jsstring" where
  "encodeURIComponent [] = Inr []"
| "encodeURIComponent (c # cs) =
     (if uriUnescaped c then
        (case encodeURIComponent cs of Inl e \<Rightarrow> Inl e | Inr r \<Rightarrow> Inr (c # r))
      else if is_low_surrogate c then Inl URIError
      else if \<not> is_high_surrogate c then
        (case encodeURIComponent cs of Inl e \<Rightarrow> Inl e
         | Inr r \<Rightarrow> Inr (escape_code_point (unat c) @ r))
      else
        (case cs of
           [] \<Rightarrow> Inl URIError
         | d # ds \<Rightarrow>
             if \<not> is_low_surrogate d then Inl URIError
             else
               (case encodeURIComponent ds of Inl e \<Rightarrow> Inl e
                | Inr r \<Rightarrow>
                    Inr (escape_code_point
                          ((unat c - 0xD800) * 0x400 + (unat d - 0xDC00) + 0x10000) @ r))))"

subsection \<open>parseInt\<close>

text \<open>
  ECMAScript's \<open>parseInt(string, radix)\<close>; the radix \<open>0\<close> stands for an omitted one.
  Leading white space is dropped, a sign is read, a \<open>0x\<close> prefix selects radix 16
  when the radix is omitted or 16, and the longest prefix of digits of the radix is the
  value; no digit at all gives \<open>NaN\<close>. The value is rounded to the nearest double
  (correctly rounded also beyond 20 digits, where ECMAScript leaves implementations a
  choice), and \<open>-0\<close> is read as negative zero.
\<close>

definition StrWhiteSpaceChar :: "code_unit \<Rightarrow> bool" where
  "StrWhiteSpaceChar c \<longleftrightarrow>
     c = 0x9 \<or> c = 0xA \<or> c = 0xB \<or> c = 0xC \<or> c = 0xD \<or> c = 0x20 \<or> c = 0xA0 \<or>
     c = 0x1680 \<or> (0x2000 \<le> c \<and> c \<le> 0x200A) \<or> c = 0x2028 \<or> c = 0x2029 \<or>
     c = 0x202F \<or> c = 0x205F \<or> c = 0x3000 \<or> c = 0xFEFF"

definition digit_value :: "code_unit \<Rightarrow> nat option" where
  "digit_value c =
     (if 48 \<le> c \<and> c \<le> 57 then Some (unat c - 48)
      else if 97 \<le> c \<and> c \<le> 122 then Some (unat c - 87)
      else if 65 \<le> c \<and> c \<le> 90 then Some (unat c - 55)
      else None)"

definition is_radix_digit :: "nat \<Rightarrow> code_unit \<Rightarrow> bool" where
  "is_radix_digit R c = (case digit_value c of None \<Rightarrow> False | Some d \<Rightarrow> d < R)"

definition radix_value :: "nat \<Rightarrow> jsstring \<Rightarrow> nat" where
  "radix_value R Z =
     foldl (\<lambda>acc c. acc * R + (case digit_value c of None \<Rightarrow> 0 | Some d \<Rightarrow> d)) 0 Z"

definition parseInt :: "jsstring \<Rightarrow> int \<Rightarrow> number" where
  "parseInt string radix =
     (let S0 = dropWhile StrWhiteSpaceChar string;
          sign = (if S0 \<noteq> [] \<and> hd S0 = 45 then - 1 else 1 :: int);
          S1 = (if S0 \<noteq> [] \<and> (hd S0 = 43 \<or> hd S0 = 45) then tl S0 else S0)
      in if radix \<noteq> 0 \<and> (radix < 2 \<or> 36 < radix) then NaN
         else
           let stripPrefix = (radix = 0 \<or> radix = 16);
               hasPrefix = (stripPrefix \<and> 2 \<le> length S1 \<and>
                            (take 2 S1 = lit ''0x'' \<or> take 2 S1 = lit ''0X''));
               R = (if hasPrefix then 16 else if radix = 0 then 10 else nat radix);
               S2 = (if hasPrefix then drop 2 S1 else S1);
               Z = takeWhile (is_radix_digit R) S2
           in if Z = [] then NaN
              else if radix_value R Z = 0 then Finite (sign = - 1) 0 0
              else Integer (sign * int (radix_value R Z)))"

section \<open>api.ts\<close>

datatype Mission = Kepler | K2 | TESS

text \<open>\<open>plotPngUrl\<close>: the target and the mission are accepted and not used; \<open>author\<close> is an
  optional argument, and both \<open>undefined\<close> and the empty string are falsy.\<close>

definition plotPngUrl ::
  "jsstring \<Rightarrow> Mission \<Rightarrow> number \<Rightarrow> jsstring option \<Rightarrow> thrown + jsstring" where
  "plotPngUrl unused_target unused_mission windowLen author =
     (case (case author of
              None \<Rightarrow> Inr []
            | Some au \<Rightarrow>
                if au = [] then Inr []
                else (case encodeURIComponent au of Inl e \<Rightarrow> Inl e
                      | Inr enc \<Rightarrow> Inr (lit ''&author='' @ enc))) of
        Inl e \<Rightarrow> Inl e
      | Inr a \<Rightarrow> Inr (lit ''/api/plot-test?window_length='' @ Number_toString windowLen @ a))"

datatype Decision = planet_like | not_planet_like

datatype diagnostic = NumberValue real | StringValue jsstring

record feature =
  f_name :: jsstring
  f_value :: "real option"
  impact :: real

text \<open>\<open>PredictResult\<close>; its \<open>target\<close>, \<open>mission\<close>, \<open>threshold\<close>, \<open>decision\<close> and \<open>notes\<close> carry the
  prefix \<open>pr_\<close> here, the plain names being those of the component's state below.\<close>

record PredictResult =
  pr_target :: jsstring
  pr_mission :: Mission
  prob_planet :: real
  pr_threshold :: "real option"
  pr_decision :: "Decision option"
  diagnostics :: "(jsstring \<times> diagnostic) list option"
  top_features :: "feature list option"
  pr_notes :: "jsstring list option"

record LightCurve =
  time :: "real list"
  flux :: "real list"
  flat_time :: "real list"
  flat_flux :: "real list"

subsection \<open>The network\<close>

text \<open>
  A request as \<open>fetch\<close> receives it. The body of the prediction request is the object
  handed to \<open>JSON.stringify\<close>; \<open>undefined\<close> members are \<open>None\<close>.
  A response has its \<open>ok\<close> flag and what \<open>res.text()\<close> and \<open>res.json()\<close> settle to
  (\<open>Inl\<close>: the promise rejects); the parsed JSON is taken at the type the source casts
  it to. \<open>fetch\<close> itself settles to a response, rejects (a network failure), or never
  settles (\<open>None\<close>).
\<close>

datatype http_method = GET | POST

record predict_body =
  b_target :: jsstring
  b_mission :: Mission
  b_author :: "jsstring option"
  b_threshold :: "real option"

record request =
  req_method :: http_method
  url :: jsstring
  headers :: "(jsstring \<times> jsstring) list"
  body :: "predict_body option"

record 'a response =
  ok :: bool
  res_text :: "thrown + jsstring"
  res_json :: "thrown + 'a"

type_synonym 'a fetch = "request \<Rightarrow> (thrown + 'a response) option"

subsection \<open>fetchLc and predict\<close>

text \<open>\<open>fetchLc\<close>, lines 28 to 30: the request handed to \<open>fetch\<close>, unless building the URL
  throws.\<close>

definition fetchLc_request ::
  "jsstring \<Rightarrow> Mission \<Rightarrow> number \<Rightarrow> jsstring option \<Rightarrow> thrown + request" where
  "fetchLc_request unused_t unused_m windowLen author =
     (case (case author of
              None \<Rightarrow> Inr []
            | Some au \<Rightarrow>
                if au = [] then Inr []
                else (case encodeURIComponent au of Inl e \<Rightarrow> Inl e
                      | Inr enc \<Rightarrow> Inr (lit ''&author='' @ enc))) of
        Inl e \<Rightarrow> Inl e
      | Inr a \<Rightarrow>
          Inr \<lparr>req_method = GET,
               url = lit ''/api/lc-test?window_length='' @ Number_toString windowLen @ a,
               headers = [], body = None\<rparr>)"

text \<open>\<open>fetchLc\<close>, lines 30 to 32: what the function's promise settles to once \<open>fetch\<close>
  has settled.\<close>

definition fetchLc_settled :: "thrown + LightCurve response \<Rightarrow> thrown + LightCurve" where
  "fetchLc_settled outcome =
     (case outcome of
        Inl e \<Rightarrow> Inl e
      | Inr res \<Rightarrow>
          if \<not> ok res then (case res_text res of Inl e \<Rightarrow> Inl e | Inr t \<Rightarrow> Inl (Error t))
          else res_json res)"

definition fetchLc ::
  "LightCurve fetch \<Rightarrow> jsstring \<Rightarrow> Mission \<Rightarrow> number \<Rightarrow> jsstring option
     \<Rightarrow> (thrown + LightCurve) option" where
  "fetchLc fetch t m windowLen author =
     (case fetchLc_request t m windowLen author of
        Inl e \<Rightarrow> Some (Inl e)
      | Inr rq \<Rightarrow> map_option fetchLc_settled (fetch rq))"

definition predict_request :: "predict_body \<Rightarrow> request" where
  "predict_request b =
     \<lparr>req_method = POST, url = lit ''/api/predict'',
      headers = [(lit ''Content-Type'', lit ''application/json'')], body = Some b\<rparr>"

definition predict_settled :: "thrown + PredictResult response \<Rightarrow> thrown + PredictResult" where
  "predict_settled outcome =
     (case outcome of
        Inl e \<Rightarrow> Inl e
      | Inr res \<Rightarrow>
          if \<not> ok res then (case res_text res of Inl e \<Rightarrow> Inl e | Inr t \<Rightarrow> Inl (Error t))
          else res_json res)"

definition predict :: "PredictResult fetch \<Rightarrow> predict_body \<Rightarrow> (thrown + PredictResult) option" where
  "predict fetch b = map_option predict_settled (fetch (predict_request b))"

section \<open>The App component\<close>

datatype Tab = tab_plot | tab_interactive | tab_predict

text \<open>The component's state: one field for each \<open>useState\<close>.\<close>

record ui_state =
  target :: jsstring
  mission :: Mission
  author :: jsstring
  windowLen :: number
  tab :: Tab
  threshold :: real
  mock :: bool
  lc :: "LightCurve option"
  loadingLc :: bool
  error :: jsstring
  pred :: "PredictResult option"
  loadingPred :: bool

definition initial_state :: ui_state where
  "initial_state =
     \<lparr>target = lit ''Kepler-10'', mission = Kepler, author = [], windowLen = Integer 401,
      tab = tab_plot, threshold = 0.5, mock = True, lc = None, loadingLc = False,
      error = [], pred = None, loadingPred = False\<rparr>"

text \<open>\<open>author || undefined\<close>\<close>

definition or_undefined :: "jsstring \<Rightarrow> jsstring option" where
  "or_undefined s = (if s = [] then None else Some s)"

definition pngUrl :: "ui_state \<Rightarrow> thrown + jsstring" where
  "pngUrl s = plotPngUrl (target s) (mission s) (windowLen s) (or_undefined (author s))"

text \<open>\<open>typeof e?.message === "string" ? e.message : String(e)\<close>\<close>

fun catch_message :: "thrown \<Rightarrow> jsstring" where
  "catch_message (Error m) = m"
| "catch_message (NonError str) = str"

subsection \<open>loadLc\<close>

text \<open>
  An \<open>async\<close> function runs up to its \<open>await\<close>, and resumes when the awaited promise
  has settled: \<open>loadLc_begin\<close> is line 77, \<open>loadLc_resume\<close> is lines 80 to 84 applied to
  the state of the moment of resumption. \<open>loadLc\<close> is one invocation with nothing else
  happening in between; when the promise never settles only the first part has run.
\<close>

definition loadLc_begin :: "ui_state \<Rightarrow> ui_state" where
  "loadLc_begin s = s\<lparr>loadingLc := True, error := []\<rparr>"

definition loadLc_resume :: "thrown + LightCurve \<Rightarrow> ui_state \<Rightarrow> ui_state" where
  "loadLc_resume r s =
     (case r of
        Inr data \<Rightarrow> s\<lparr>lc := Some data\<rparr>
      | Inl e \<Rightarrow> s\<lparr>error := catch_message e, lc := None\<rparr>)\<lparr>loadingLc := False\<rparr>"

definition loadLc :: "LightCurve fetch \<Rightarrow> ui_state \<Rightarrow> ui_state" where
  "loadLc fetch s =
     (let s1 = loadLc_begin s in
      case fetchLc fetch (target s) (mission s) (windowLen s) (or_undefined (author s)) of
        None \<Rightarrow> s1
      | Some r \<Rightarrow> loadLc_resume r s1)"

subsection \<open>runPredict\<close>

definition fake :: "jsstring \<Rightarrow> Mission \<Rightarrow> PredictResult" where
  "fake tgt msn =
     \<lparr>pr_target = tgt, pr_mission = msn,
      prob_planet = 0.84,
      pr_threshold = None,
      pr_decision = Some planet_like,
      diagnostics = Some
        [(lit ''snr'', NumberValue 18.3), (lit ''cdpp_ppm'', NumberValue 65),
         (lit ''odd_even_diff'', NumberValue 0.01), (lit ''secondary_snr'', NumberValue 0.2),
         (lit ''centroid_sigma'', NumberValue 0.7)],
      top_features = Some
        [\<lparr>f_name = lit ''depth_ppm'', f_value = Some 520, impact = 0.23\<rparr>,
         \<lparr>f_name = lit ''duration_hr'', f_value = Some 3.1, impact = 0.17\<rparr>,
         \<lparr>f_name = lit ''secondary_snr'', f_value = Some 0.2, impact = 0.10\<rparr>,
         \<lparr>f_name = lit ''cdpp_ppm'', f_value = Some 65, impact = - 0.12\<rparr>],
      pr_notes = Some [lit ''No secondary at phase ~0.5'', lit ''Odd-even consistent'']\<rparr>"

definition runPredict_begin :: "ui_state \<Rightarrow> ui_state" where
  "runPredict_begin s = s\<lparr>loadingPred := True, error := []\<rparr>"

definition runPredict_resume :: "thrown + PredictResult \<Rightarrow> ui_state \<Rightarrow> ui_state" where
  "runPredict_resume r s =
     (case r of
        Inr result \<Rightarrow> s\<lparr>pred := Some result\<rparr>
      | Inl e \<Rightarrow> s\<lparr>error := catch_message e, pred := None\<rparr>)\<lparr>loadingPred := False\<rparr>"

definition predict_args :: "ui_state \<Rightarrow> predict_body" where
  "predict_args s =
     \<lparr>b_target = target s, b_mission = mission s, b_author = or_undefined (author s),
      b_threshold = Some (threshold s)\<rparr>"

definition runPredict :: "PredictResult fetch \<Rightarrow> ui_state \<Rightarrow> ui_state" where
  "runPredict fetch s =
     (let s1 = runPredict_begin s in
      if mock s then runPredict_resume (Inr (fake (target s) (mission s))) s1
      else
        case predict fetch (predict_args s) of
          None \<Rightarrow> s1
        | Some r \<Rightarrow> runPredict_resume r s1)"

subsection \<open>The displayed decision and the window-length field\<close>

text \<open>Line 120: \<open>(pred?.prob_planet ?? 0) >= threshold ? "planet_like" : "not_planet_like"\<close>\<close>

definition decision :: "PredictResult option \<Rightarrow> real \<Rightarrow> Decision" where
  "decision p thr =
     (if thr \<le> (case p of None \<Rightarrow> 0 | Some result \<Rightarrow> prob_planet result) then planet_like
      else not_planet_like)"

text \<open>The \<open>onChange\<close> of the window-length input, applied to \<open>e.target.value\<close>:
  \<open>parseInt(e.target.value || "401")\<close> in the tabbed component, and the same with radix
  10 in the plot-only component (App.tsx).\<close>

definition windowLen_onChange :: "jsstring \<Rightarrow> number" where
  "windowLen_onChange v = parseInt (if v = [] then lit ''401'' else v) 0"


subsection \<open>Invocations interleaved with other events\<close>

text \<open>
  Nothing disables a button while a request is outstanding, so invocations can overlap.
  A world is the component's state and the requests handed to \<open>fetch\<close> that have not
  settled yet, for each of the two operations. An event is a user action or the
  settling of one outstanding request (the \<open>i\<close>-th of its list). An invocation that
  has nothing to wait for (mock mode) or whose URL cannot be built resolves before any
  other event. The slider and the Re-score button exist only while the predict tab is
  shown.
\<close>

record world =
  ui :: ui_state
  lc_inflight :: "request list"
  pred_inflight :: "request list"

definition initial_world :: world where
  "initial_world = \<lparr>ui = initial_state, lc_inflight = [], pred_inflight = []\<rparr>"

datatype event =
    setTarget jsstring
  | setMission Mission
  | setAuthor jsstring
  | windowLen_input jsstring
  | setThreshold real
  | setMock bool
  | click_Plot
  | click_Interactive
  | click_Predict
  | click_Rescore
  | lc_settles nat "thrown + LightCurve response"
  | pred_settles nat "thrown + PredictResult response"

definition invoke_loadLc :: "world \<Rightarrow> world" where
  "invoke_loadLc w =
     (let s = ui w; s1 = loadLc_begin s in
      case fetchLc_request (target s) (mission s) (windowLen s) (or_undefined (author s)) of
        Inl e \<Rightarrow> w\<lparr>ui := loadLc_resume (Inl e) s1\<rparr>
      | Inr rq \<Rightarrow> w\<lparr>ui := s1, lc_inflight := lc_inflight w @ [rq]\<rparr>)"

definition invoke_runPredict :: "world \<Rightarrow> world" where
  "invoke_runPredict w =
     (let s = ui w; s1 = runPredict_begin s in
      if mock s then w\<lparr>ui := runPredict_resume (Inr (fake (target s) (mission s))) s1\<rparr>
      else w\<lparr>ui := s1, pred_inflight := pred_inflight w @ [predict_request (predict_args s)]\<rparr>)"

fun step :: "event \<Rightarrow> world \<Rightarrow> world" where
  "step (setTarget v) w = w\<lparr>ui := (ui w)\<lparr>target := v\<rparr>\<rparr>"
| "step (setMission v) w = w\<lparr>ui := (ui w)\<lparr>mission := v\<rparr>\<rparr>"
| "step (setAuthor v) w = w\<lparr>ui := (ui w)\<lparr>author := v\<rparr>\<rparr>"
| "step (windowLen_input v) w = w\<lparr>ui := (ui w)\<lparr>windowLen := windowLen_onChange v\<rparr>\<rparr>"
| "step (setThreshold v) w =
     (if tab (ui w) = tab_predict then w\<lparr>ui := (ui w)\<lparr>threshold := v\<rparr>\<rparr> else w)"
| "step (setMock v) w = w\<lparr>ui := (ui w)\<lparr>mock := v\<rparr>\<rparr>"
| "step click_Plot w = w\<lparr>ui := (ui w)\<lparr>tab := tab_plot\<rparr>\<rparr>"
| "step click_Interactive w = invoke_loadLc (w\<lparr>ui := (ui w)\<lparr>tab := tab_interactive\<rparr>\<rparr>)"
| "step click_Predict w = invoke_runPredict (w\<lparr>ui := (ui w)\<lparr>tab := tab_predict\<rparr>\<rparr>)"
| "step click_Rescore w = (if tab (ui w) = tab_predict then invoke_runPredict w else w)"
| "step (lc_settles i outcome) w =
     (if i < length (lc_inflight w)
      then w\<lparr>ui := loadLc_resume (fetchLc_settled outcome) (ui w),
              lc_inflight := take i (lc_inflight w) @ drop (Suc i) (lc_inflight w)\<rparr>
      else w)"
| "step (pred_settles i outcome) w =
     (if i < length (pred_inflight w)
      then w\<lparr>ui := runPredict_resume (predict_settled outcome) (ui w),
              pred_inflight := take i (pred_inflight w) @ drop (Suc i) (pred_inflight w)\<rparr>
      else w)"

fun run :: "event list \<Rightarrow> world \<Rightarrow> world" where
  "run [] w = w"
| "run (e # es) w = run es (step e w)"

text \<open>No invocation of an operation begins while a request of that operation is
  outstanding.\<close>

fun non_overlapping :: "event list \<Rightarrow> world \<Rightarrow> bool" where
  "non_overlapping [] w = True"
| "non_overlapping (e # es) w =
     ((case e of
         click_Interactive \<Rightarrow> lc_inflight w = []
       | click_Predict \<Rightarrow> pred_inflight w = []
       | click_Rescore \<Rightarrow> pred_inflight w = []
       | _ \<Rightarrow> True) \<and>
      non_overlapping es (step e w))"

section \<open>Reading the query component of a URL\<close>

text \<open>
  What it means for a URL to carry a query parameter. The path is what precedes the
  first \<open>?\<close> and the query component is what follows it; the parameters are separated
  by \<open>&\<close>, and each is a name and a value separated by the first \<open>=\<close>. Values are
  read as written (percent-escapes are not decoded).
\<close>

fun split_on :: "'a \<Rightarrow> 'a list \<Rightarrow> 'a list list" where
  "split_on sep [] = [] # []"
| "split_on sep (c # cs) =
     (if c = sep then [] # split_on sep cs
      else (case split_on sep cs of [] \<Rightarrow> [c] # [] | p # ps \<Rightarrow> (c # p) # ps))"

definition url_path :: "jsstring \<Rightarrow> jsstring" where
  "url_path u = takeWhile (\<lambda>c. c \<noteq> 63) u"

definition query_params :: "jsstring \<Rightarrow> (jsstring \<times> jsstring) list" where
  "query_params u =
     (let q = drop 1 (dropWhile (\<lambda>c. c \<noteq> 63) u) in
      if q = [] then []
      else map (\<lambda>kv. (takeWhile (\<lambda>c. c \<noteq> 61) kv, drop 1 (dropWhile (\<lambda>c. c \<noteq> 61) kv)))
             (split_on 38 q))"

section \<open>Sample data and state predicates\<close>

definition sample_curve :: LightCurve where
  "sample_curve = \<lparr>time = [0, 1], flux = [1, 0.99], flat_time = [0, 1], flat_flux = [1, 1]\<rparr>"

text \<open>A loading flag is on only while a request of its operation is outstanding.\<close>

definition flag_needs_request :: "world \<Rightarrow> bool" where
  "flag_needs_request w \<longleftrightarrow>
     (loadingLc (ui w) \<longrightarrow> lc_inflight w \<noteq> []) \<and> (loadingPred (ui w) \<longrightarrow> pred_inflight w \<noteq> [])"

text \<open>An outstanding request has its loading flag on, and it is the only one of its
  operation.\<close>

definition request_shows_flag :: "world \<Rightarrow> bool" where
  "request_shows_flag w \<longleftrightarrow>
     (lc_inflight w \<noteq> [] \<longrightarrow> loadingLc (ui w)) \<and> length (lc_inflight w) \<le> 1 \<and>
     (pred_inflight w \<noteq> [] \<longrightarrow> loadingPred (ui w)) \<and> length (pred_inflight w) \<le> 1"

section \<open>Facts about the library functions\<close>

subsection \<open>Code units produced by number formatting and by encodeURIComponent\<close>

text \<open>Neither a formatted number nor an encoded component contains \<open>&\<close> (38), \<open>=\<close> (61)
  or \<open>?\<close> (63).\<close>

lemma decimal_digit_unit:
  "d < 10 \<Longrightarrow> 48 \<le> (of_nat (48 + d) :: code_unit) \<and> (of_nat (48 + d) :: code_unit) \<le> 57"
proof -
  assume "d < 10"
  then have "d \<in> {0, 1, 2, 3, 4, 5, 6, 7, 8, 9}" by auto
  then show ?thesis by auto
qed

lemma decimal_digits: "c \<in> set (decimal n) \<Longrightarrow> 48 \<le> c \<and> c \<le> 57"
proof (induction n arbitrary: c rule: decimal.induct)
  case (1 n)
  show ?case
  proof (cases "n < 10")
    case True
    with "1.prems" show ?thesis
      using decimal_digit_unit [of n] by (simp add: decimal.simps [of n])
  next
    case False
    with "1.prems" have "c \<in> set (decimal (n div 10)) \<or> c = of_nat (48 + n mod 10)"
      by (auto simp: decimal.simps [of n])
    then show ?thesis
      using "1.IH" [OF False] decimal_digit_unit [of "n mod 10"] by auto
  qed
qed

lemma finite_toString_units:
  "c \<in> set (finite_toString s n) \<Longrightarrow> c \<noteq> 38 \<and> c \<noteq> 61 \<and> c \<noteq> 63"
proof -
  assume "c \<in> set (finite_toString s n)"
  then have "c \<in> set (decimal s) \<or> c \<in> set (decimal (nat \<bar>n - 1\<bar>)) \<or>
             c \<in> {43, 45, 46, 48, 101}"
    by (auto simp: finite_toString_def Let_def lit_def split: if_splits
        dest: in_set_takeD in_set_dropD)
  then show ?thesis using decimal_digits [of c] by auto
qed

lemma Number_toString_units:
  "c \<in> set (Number_toString w) \<Longrightarrow> c \<noteq> 38 \<and> c \<noteq> 61 \<and> c \<noteq> 63"
proof (cases w)
  case (Finite neg s n)
  assume "c \<in> set (Number_toString w)"
  with Finite have "c = 45 \<or> c = 48 \<or> c \<in> set (finite_toString s n)"
    by (auto simp: lit_def split: if_splits)
  then show ?thesis using finite_toString_units [of c s n] by auto
qed (auto simp: lit_def)

lemma hex_digit_units:
  "d < 16 \<Longrightarrow> hex_digit d \<noteq> 38 \<and> hex_digit d \<noteq> 61 \<and> hex_digit d \<noteq> 63"
proof -
  assume "d < 16"
  then have "d = 0 \<or> d = 1 \<or> d = 2 \<or> d = 3 \<or> d = 4 \<or> d = 5 \<or> d = 6 \<or> d = 7 \<or> d = 8 \<or>
             d = 9 \<or> d = 10 \<or> d = 11 \<or> d = 12 \<or> d = 13 \<or> d = 14 \<or> d = 15"
    by arith
  then show ?thesis by (auto simp: hex_digit_def)
qed

lemma percent_octet_units:
  "b < 256 \<Longrightarrow> c \<in> set (percent_octet b) \<Longrightarrow> c \<noteq> 38 \<and> c \<noteq> 61 \<and> c \<noteq> 63"
proof -
  assume b: "b < 256" and c: "c \<in> set (percent_octet b)"
  from b have "b div 16 < 16" by arith
  moreover have "b mod 16 < 16" by simp
  ultimately show ?thesis
    using c hex_digit_units [of "b div 16"] hex_digit_units [of "b mod 16"]
    by (auto simp: percent_octet_def)
qed

lemma utf8_octets_bound: "v < 0x200000 \<Longrightarrow> b \<in> set (utf8_octets v) \<Longrightarrow> b < 256"
  by (auto simp: utf8_octets_def split: if_splits)

lemma escape_code_point_units:
  "v < 0x200000 \<Longrightarrow> c \<in> set (escape_code_point v) \<Longrightarrow> c \<noteq> 38 \<and> c \<noteq> 61 \<and> c \<noteq> 63"
  using percent_octet_units utf8_octets_bound
  by (fastforce simp: escape_code_point_def)

lemma uriUnescaped_units: "uriUnescaped c \<Longrightarrow> c \<noteq> 38 \<and> c \<noteq> 61 \<and> c \<noteq> 63"
  by (auto simp: uriUnescaped_def)

lemma surrogate_pair_bound:
  "is_high_surrogate c \<Longrightarrow> is_low_surrogate d \<Longrightarrow>
   (unat c - 0xD800) * 0x400 + (unat d - 0xDC00) + 0x10000 < (0x200000 :: nat)"
proof -
  assume "is_high_surrogate c" "is_low_surrogate d"
  then have "unat c \<le> 0xDBFF" "unat d \<le> 0xDFFF"
    by (simp_all add: is_high_surrogate_def is_low_surrogate_def word_le_nat_alt)
  then show ?thesis by simp
qed

lemma code_unit_bound: "unat (c :: code_unit) < 0x200000"
  using unsigned_less [of c, where 'a = nat] by simp

lemma encodeURIComponent_units:
  "encodeURIComponent a = Inr enc \<Longrightarrow> c \<in> set enc \<Longrightarrow> c \<noteq> 38 \<and> c \<noteq> 61 \<and> c \<noteq> 63"
proof (induction a arbitrary: enc rule: encodeURIComponent.induct)
  case 1
  then show ?case by simp
next
  case (2 u us)
  show ?case
  proof (cases "uriUnescaped u")
    case True
    with "2.prems" obtain r where r: "encodeURIComponent us = Inr r" "enc = u # r"
      by (auto split: sum.splits)
    with "2.prems" "2.IH"(1) [OF True r(1)] uriUnescaped_units [OF True] show ?thesis
      by auto
  next
    case False
    note notun = this
    show ?thesis
    proof (cases "is_low_surrogate u")
      case True
      with notun "2.prems" show ?thesis by simp
    next
      case False
      note notlow = this
      show ?thesis
      proof (cases "is_high_surrogate u")
        case False
        with notun notlow "2.prems" obtain r where
          r: "encodeURIComponent us = Inr r" "enc = escape_code_point (unat u) @ r"
          by (auto split: sum.splits)
        with "2.prems" "2.IH"(2) [OF notun notlow False r(1)]
          escape_code_point_units [OF code_unit_bound, of c u]
        show ?thesis by auto
      next
        case True
        with notun notlow "2.prems" obtain d ds r where
          r: "us = d # ds" "is_low_surrogate d" "encodeURIComponent ds = Inr r"
             "enc = escape_code_point ((unat u - 0xD800) * 0x400 + (unat d - 0xDC00) + 0x10000) @ r"
          by (auto split: sum.splits list.splits if_splits)
        have hi: "\<not> \<not> is_high_surrogate u" using True by simp
        have lo: "\<not> \<not> is_low_surrogate d" using r(2) by simp
        from "2.prems" r "2.IH"(3) [OF notun notlow hi r(1) lo r(3)]
          escape_code_point_units [OF surrogate_pair_bound [OF True r(2)], of c]
        show ?thesis by auto
      qed
    qed
  qed
qed

subsection \<open>Reading the URLs the program builds\<close>

lemma split_on_no_sep: "sep \<notin> set xs \<Longrightarrow> split_on sep xs = [xs]"
  by (induction xs) auto

lemma split_on_append: "sep \<notin> set xs \<Longrightarrow> split_on sep (xs @ sep # ys) = xs # split_on sep ys"
  by (induction xs) auto

lemma query_of_url: "63 \<notin> set p \<Longrightarrow> drop (Suc 0) (dropWhile (\<lambda>c. c \<noteq> 63) (p @ 63 # q)) = q"
  by (induction p) auto

lemma path_of_url: "63 \<notin> set p \<Longrightarrow> url_path (p @ 63 # q) = p"
  by (induction p) (auto simp: url_path_def)

lemma name_of_param: "61 \<notin> set k \<Longrightarrow> takeWhile (\<lambda>c. c \<noteq> 61) (k @ 61 # v) = k"
  by (induction k) auto

lemma value_of_param: "61 \<notin> set k \<Longrightarrow> drop (Suc 0) (dropWhile (\<lambda>c. c \<noteq> 61) (k @ 61 # v)) = v"
  by (induction k) auto

lemma query_params_one:
  assumes "63 \<notin> set p" "61 \<notin> set k" "38 \<notin> set k" "38 \<notin> set v"
  shows "query_params (p @ 63 # k @ 61 # v) = [(k, v)]"
proof -
  have "38 \<notin> set (k @ 61 # v)" using assms by simp
  then have "split_on 38 (k @ 61 # v) = [k @ 61 # v]" by (rule split_on_no_sep)
  then show ?thesis
    using assms by (simp add: query_params_def query_of_url name_of_param value_of_param)
qed

lemma query_params_two:
  assumes "63 \<notin> set p" "61 \<notin> set k1" "38 \<notin> set k1" "38 \<notin> set v1"
    "61 \<notin> set k2" "38 \<notin> set k2" "38 \<notin> set v2"
  shows "query_params (p @ 63 # k1 @ 61 # v1 @ 38 # k2 @ 61 # v2) = [(k1, v1), (k2, v2)]"
proof -
  have a: "38 \<notin> set (k1 @ 61 # v1)" and b: "38 \<notin> set (k2 @ 61 # v2)" using assms by simp_all
  have "split_on 38 ((k1 @ 61 # v1) @ 38 # (k2 @ 61 # v2)) = [k1 @ 61 # v1, k2 @ 61 # v2]"
    using split_on_append [OF a] split_on_no_sep [OF b] by simp
  then have "split_on 38 (k1 @ 61 # v1 @ 38 # k2 @ 61 # v2) = [k1 @ 61 # v1, k2 @ 61 # v2]"
    by simp
  then show ?thesis
    using assms by (simp add: query_params_def query_of_url name_of_param value_of_param)
qed

lemma plot_url_shape:
  "lit ''/api/plot-test?window_length='' @ n = lit ''/api/plot-test'' @ 63 # lit ''window_length'' @ 61 # n"
  "lit ''&author='' @ enc = 38 # lit ''author'' @ 61 # enc"
  "lit ''/api/lc-test?window_length='' @ n = lit ''/api/lc-test'' @ 63 # lit ''window_length'' @ 61 # n"
  by (simp_all add: lit_def)

lemma url_literal_units:
  "63 \<notin> set (lit ''/api/plot-test'')" "63 \<notin> set (lit ''/api/lc-test'')"
  "61 \<notin> set (lit ''window_length'')" "38 \<notin> set (lit ''window_length'')"
  "61 \<notin> set (lit ''author'')" "38 \<notin> set (lit ''author'')"
  by (simp_all add: lit_def)

lemma query_without_author:
  "query_params (lit ''/api/plot-test?window_length='' @ Number_toString w) =
     [(lit ''window_length'', Number_toString w)]"
  "query_params (lit ''/api/lc-test?window_length='' @ Number_toString w) =
     [(lit ''window_length'', Number_toString w)]"
  "url_path (lit ''/api/plot-test?window_length='' @ Number_toString w) = lit ''/api/plot-test''"
  "url_path (lit ''/api/lc-test?window_length='' @ Number_toString w) = lit ''/api/lc-test''"
proof -
  have n: "38 \<notin> set (Number_toString w)" using Number_toString_units [of 38 w] by auto
  show "query_params (lit ''/api/plot-test?window_length='' @ Number_toString w) =
     [(lit ''window_length'', Number_toString w)]"
    unfolding plot_url_shape using n by (intro query_params_one url_literal_units)
  show "query_params (lit ''/api/lc-test?window_length='' @ Number_toString w) =
     [(lit ''window_length'', Number_toString w)]"
    unfolding plot_url_shape using n by (intro query_params_one url_literal_units)
  show "url_path (lit ''/api/plot-test?window_length='' @ Number_toString w) = lit ''/api/plot-test''"
    unfolding plot_url_shape by (intro path_of_url url_literal_units)
  show "url_path (lit ''/api/lc-test?window_length='' @ Number_toString w) = lit ''/api/lc-test''"
    unfolding plot_url_shape by (intro path_of_url url_literal_units)
qed

lemma query_with_author:
  assumes "encodeURIComponent au = Inr enc"
  shows "query_params (lit ''/api/plot-test?window_length='' @ Number_toString w @ lit ''&author='' @ enc) =
     [(lit ''window_length'', Number_toString w), (lit ''author'', enc)]"
  "query_params (lit ''/api/lc-test?window_length='' @ Number_toString w @ lit ''&author='' @ enc) =
     [(lit ''window_length'', Number_toString w), (lit ''author'', enc)]"
  "url_path (lit ''/api/plot-test?window_length='' @ Number_toString w @ lit ''&author='' @ enc)
     = lit ''/api/plot-test''"
  "url_path (lit ''/api/lc-test?window_length='' @ Number_toString w @ lit ''&author='' @ enc)
     = lit ''/api/lc-test''"
proof -
  have n: "38 \<notin> set (Number_toString w)" using Number_toString_units [of 38 w] by auto
  have e: "38 \<notin> set enc" using encodeURIComponent_units [OF assms, of 38] by auto
  show "query_params (lit ''/api/plot-test?window_length='' @ Number_toString w @ lit ''&author='' @ enc) =
     [(lit ''window_length'', Number_toString w), (lit ''author'', enc)]"
    unfolding plot_url_shape using n e by (intro query_params_two url_literal_units)
  show "query_params (lit ''/api/lc-test?window_length='' @ Number_toString w @ lit ''&author='' @ enc) =
     [(lit ''window_length'', Number_toString w), (lit ''author'', enc)]"
    unfolding plot_url_shape using n e by (intro query_params_two url_literal_units)
  show "url_path (lit ''/api/plot-test?window_length='' @ Number_toString w @ lit ''&author='' @ enc)
     = lit ''/api/plot-test''"
    unfolding plot_url_shape by (intro path_of_url url_literal_units)
  show "url_path (lit ''/api/lc-test?window_length='' @ Number_toString w @ lit ''&author='' @ enc)
     = lit ''/api/lc-test''"
    unfolding plot_url_shape by (intro path_of_url url_literal_units)
qed


subsection \<open>parseInt reads back what number formatting writes\<close>

lemma digit_value_decimal: "48 \<le> c \<Longrightarrow> c \<le> 57 \<Longrightarrow> digit_value c = Some (unat c - 48)"
  by (simp add: digit_value_def)

lemma decimal_unit_value: "d < 10 \<Longrightarrow> unat (of_nat (48 + d) :: code_unit) - 48 = d"
proof -
  assume "d < 10"
  then have "d = 0 \<or> d = 1 \<or> d = 2 \<or> d = 3 \<or> d = 4 \<or> d = 5 \<or> d = 6 \<or> d = 7 \<or> d = 8 \<or> d = 9"
    by arith
  then show ?thesis by auto
qed

lemma decimal_is_radix_digit: "c \<in> set (decimal n) \<Longrightarrow> is_radix_digit 10 c"
proof -
  assume "c \<in> set (decimal n)"
  then have c: "48 \<le> c" "c \<le> 57" using decimal_digits by auto
  then have "unat c \<le> 57" by (simp add: word_le_nat_alt)
  then show ?thesis using digit_value_decimal [OF c] by (simp add: is_radix_digit_def)
qed

lemma decimal_nonempty: "decimal n \<noteq> []"
  by (subst decimal.simps) simp

lemma radix_value_snoc:
  "radix_value R (Z @ [c]) = radix_value R Z * R + (case digit_value c of None \<Rightarrow> 0 | Some d \<Rightarrow> d)"
  by (simp add: radix_value_def)

lemma radix_value_decimal: "radix_value 10 (decimal n) = n"
proof (induction n rule: decimal.induct)
  case (1 n)
  show ?case
  proof (cases "n < 10")
    case True
    then have "decimal n = [of_nat (48 + n)]" by (simp add: decimal.simps [of n])
    moreover have "digit_value (of_nat (48 + n) :: code_unit) = Some n"
      using digit_value_decimal [of "of_nat (48 + n)"] decimal_digit_unit [OF True]
        decimal_unit_value [OF True] by simp
    ultimately show ?thesis by (simp add: radix_value_def)
  next
    case False
    have m: "n mod 10 < 10" by simp
    have "decimal n = decimal (n div 10) @ [of_nat (48 + n mod 10)]"
      using False by (simp add: decimal.simps [of n])
    moreover have "digit_value (of_nat (48 + n mod 10) :: code_unit) = Some (n mod 10)"
      using digit_value_decimal [of "of_nat (48 + n mod 10)"] decimal_digit_unit [OF m]
        decimal_unit_value [OF m] by simp
    ultimately have "radix_value 10 (decimal n) = radix_value 10 (decimal (n div 10)) * 10 + n mod 10"
      by (simp add: radix_value_snoc)
    then show ?thesis using "1.IH" [OF False] by simp
  qed
qed

lemma decimal_hd: "48 \<le> hd (decimal n) \<and> hd (decimal n) \<le> 57"
  using decimal_digits [of "hd (decimal n)" n] decimal_nonempty [of n] by simp

lemma decimal_no_space: "dropWhile StrWhiteSpaceChar (decimal n) = decimal n"
proof -
  have "\<not> StrWhiteSpaceChar (hd (decimal n))"
    using decimal_hd [of n] by (auto simp: StrWhiteSpaceChar_def word_le_nat_alt)
  then show ?thesis using decimal_nonempty [of n] by (cases "decimal n") simp_all
qed

lemma decimal_no_prefix: "take 2 (decimal n) \<noteq> lit ''0x'' \<and> take 2 (decimal n) \<noteq> lit ''0X''"
proof -
  {
    fix c :: code_unit
    assume "take 2 (decimal n) = [48, c]"
    then have "c \<in> set (take 2 (decimal n))" by simp
    then have "c \<in> set (decimal n)" by (rule in_set_takeD)
    then have "48 \<le> c \<and> c \<le> 57" by (rule decimal_digits)
  }
  note d = this
  show ?thesis using d [of 120] d [of 88] by (auto simp: lit_def)
qed

lemma decimal_all_digits: "takeWhile (is_radix_digit 10) (decimal n) = decimal n"
  using decimal_is_radix_digit by simp

lemma Integer_zero: "Integer 0 = Finite False 0 0"
  by (simp add: Integer_def)

lemma parseInt_decimal:
  assumes "radix = 0 \<or> radix = 10"
  shows "parseInt (decimal n) radix = Integer (int n)"
proof -
  have sign: "hd (decimal n) \<noteq> 43" "hd (decimal n) \<noteq> 45"
    using decimal_hd [of n] by auto
  show ?thesis
    using assms sign decimal_no_prefix [of n] decimal_nonempty [of n]
    by (auto simp: parseInt_def decimal_no_space decimal_all_digits radix_value_decimal Let_def
        Integer_zero)
qed


text \<open>An integer up to \<open>2^53\<close> prints as its decimal digits.\<close>

lemma decimal_length: "m < 10 ^ k \<Longrightarrow> 0 < k \<Longrightarrow> length (decimal m) \<le> k"
proof (induction m arbitrary: k rule: decimal.induct)
  case (1 m)
  show ?case
  proof (cases "m < 10")
    case True
    then show ?thesis using "1.prems" by (simp add: decimal.simps [of m])
  next
    case False
    from "1.prems" obtain j where j: "k = Suc j" by (cases k) auto
    with False "1.prems" have "0 < j" by (cases j) auto
    moreover from j "1.prems" have "m div 10 < 10 ^ j" by (simp add: less_mult_imp_div_less)
    ultimately have "length (decimal (m div 10)) \<le> j" using "1.IH" [OF False] by simp
    then show ?thesis using False j by (simp add: decimal.simps [of m])
  qed
qed

lemma decimal_times_ten: "0 < m \<Longrightarrow> decimal (m * 10) = decimal m @ [48]"
  by (subst decimal.simps) simp

lemma strip_zeros_positive: "0 < m \<Longrightarrow> 0 < strip_zeros m"
proof (induction m rule: strip_zeros.induct)
  case (1 m)
  show ?case
  proof (cases "m mod 10 = 0")
    case True
    with "1.prems" have "0 < m div 10" by (simp add: div_greater_zero_iff dvd_imp_le mod_eq_0_iff_dvd)
    with True "1.prems" "1.IH" show ?thesis by (simp add: strip_zeros.simps [of m])
  next
    case False
    with "1.prems" show ?thesis by (simp add: strip_zeros.simps [of m])
  qed
qed

lemma decimal_strip_zeros:
  "0 < m \<Longrightarrow> \<exists>z. decimal m = decimal (strip_zeros m) @ replicate z 48"
proof (induction m rule: strip_zeros.induct)
  case (1 m)
  show ?case
  proof (cases "m mod 10 = 0")
    case True
    with "1.prems" have pos: "0 < m div 10"
      by (simp add: div_greater_zero_iff dvd_imp_le mod_eq_0_iff_dvd)
    from True have m: "m = m div 10 * 10" by arith
    from "1.IH" True "1.prems" pos obtain z where
      z: "decimal (m div 10) = decimal (strip_zeros (m div 10)) @ replicate z 48" by auto
    have "decimal m = decimal (m div 10) @ [48]"
      using decimal_times_ten [OF pos] m by simp
    with z have "decimal m = decimal (strip_zeros (m div 10)) @ replicate (Suc z) 48"
      by (simp add: replicate_append_same)
    moreover have "strip_zeros m = strip_zeros (m div 10)"
      using True "1.prems" by (simp add: strip_zeros.simps [of m])
    ultimately show ?thesis by metis
  next
    case False
    then have "strip_zeros m = m" by (simp add: strip_zeros.simps [of m])
    then have "decimal m = decimal (strip_zeros m) @ replicate 0 48" by simp
    then show ?thesis by blast
  qed
qed

lemma finite_toString_safe:
  assumes "0 < m" "m \<le> 2 ^ 53"
  shows "finite_toString (strip_zeros m) (int (length (decimal m))) = decimal m"
proof -
  from decimal_strip_zeros [OF assms(1)] obtain z where
    z: "decimal m = decimal (strip_zeros m) @ replicate z 48" by blast
  then have len: "length (decimal m) = length (decimal (strip_zeros m)) + z" by (metis length_append length_replicate)
  have "m < 10 ^ 16" using assms(2) by simp
  then have "length (decimal m) \<le> 16" by (rule decimal_length) simp
  then show ?thesis
    using z len by (simp add: finite_toString_def Let_def)
qed

lemma Number_toString_Integer:
  assumes "\<bar>i\<bar> \<le> 2 ^ 53"
  shows "Number_toString (Integer i) = (if i < 0 then lit ''-'' else []) @ decimal (nat \<bar>i\<bar>)"
proof (cases "i = 0")
  case True
  then show ?thesis by (simp add: Integer_def lit_def decimal.simps)
next
  case False
  let ?m = "nat \<bar>i\<bar>"
  from False assms have m: "0 < ?m" "?m \<le> 2 ^ 53" by (simp_all add: nat_le_iff)
  then have "Integer i = Finite (i < 0) (strip_zeros ?m) (int (length (decimal ?m)))"
    using False by (simp add: Integer_def round_to_double_def shortest_digits_def)
  then show ?thesis
    using finite_toString_safe [OF m] strip_zeros_positive [OF m(1)] by simp
qed


lemma Number_toString_401: "Number_toString (Integer 401) = lit ''401''"
  using Number_toString_Integer [of 401] by (simp add: decimal.simps lit_def)

text \<open>Beyond \<open>2^53\<close>: an integer is rounded to a double, a double from \<open>10^21\<close> on
  prints in exponent notation, and from \<open>2^1024\<close> on there is only infinity.\<close>

lemma rounding_examples:
  "round_to_double 9007199254740993 = Some 9007199254740992"
  "round_to_double (10 ^ 21) = Some (10 ^ 21)"
  "round_to_double (2 ^ 1024) = None"
  by (simp_all add: round_to_double_def bit_length.simps)

lemma Integer_rounds: "Integer 9007199254740993 = Integer 9007199254740992"
proof -
  have "round_to_double 9007199254740992 = Some 9007199254740992"
    by (simp add: round_to_double_def)
  then show ?thesis by (simp add: Integer_def rounding_examples(1))
qed

lemma parseInt_rounds: "parseInt (lit ''9007199254740993'') 10 = Integer 9007199254740992"
proof -
  have "lit ''9007199254740993'' = decimal 9007199254740993"
    by (simp add: decimal.simps lit_def)
  then show ?thesis
    using parseInt_decimal [of 10 9007199254740993] Integer_rounds by simp
qed

lemma exponent_notation: "Number_toString (Integer (10 ^ 21)) = lit ''1e+21''"
proof -
  have "digit_candidates (10 ^ 21) 1 = [(1, 22)]"
    by (simp add: digit_candidates_def decimal.simps round_to_double_def bit_length.simps Let_def)
  then have "shortest_digits (10 ^ 21) = (1, 22)"
    by (simp add: shortest_digits_def decimal.simps upt_rec)
  then have "Integer (10 ^ 21) = Finite False 1 22"
    using rounding_examples(2) by (simp add: Integer_def)
  then show ?thesis
    by (simp add: finite_toString_def decimal.simps lit_def)
qed

lemma infinity_example: "Number_toString (Integer (2 ^ 1024)) = lit ''Infinity''"
  using rounding_examples(3) by (simp add: Integer_def)




subsection \<open>One invocation of loadLc and of runPredict\<close>

lemma loadLc_rejected:
  "fetchLc fetchL (target s) (mission s) (windowLen s) (or_undefined (author s)) = Some (Inl e) \<Longrightarrow>
   lc (loadLc fetchL s) = None \<and> error (loadLc fetchL s) = catch_message e"
  by (simp add: loadLc_def loadLc_begin_def loadLc_resume_def)

lemma loadLc_fulfilled:
  "fetchLc fetchL (target s) (mission s) (windowLen s) (or_undefined (author s)) = Some (Inr data) \<Longrightarrow>
   lc (loadLc fetchL s) = Some data \<and> error (loadLc fetchL s) = []"
  by (simp add: loadLc_def loadLc_begin_def loadLc_resume_def)

lemma fetchLc_outcome:
  "fetchLc_request t m w a = Inr rq \<Longrightarrow> fetchL rq = Some outcome \<Longrightarrow>
   fetchLc fetchL t m w a = Some (fetchLc_settled outcome)"
  by (simp add: fetchLc_def)

lemma runPredict_rejected:
  "\<not> mock s \<Longrightarrow> predict fetchP (predict_args s) = Some (Inl e) \<Longrightarrow>
   pred (runPredict fetchP s) = None \<and> error (runPredict fetchP s) = catch_message e"
  by (simp add: runPredict_def runPredict_begin_def runPredict_resume_def)

lemma runPredict_fulfilled:
  "\<not> mock s \<Longrightarrow> predict fetchP (predict_args s) = Some (Inr result) \<Longrightarrow>
   pred (runPredict fetchP s) = Some result \<and> error (runPredict fetchP s) = []"
  by (simp add: runPredict_def runPredict_begin_def runPredict_resume_def)

lemma predict_outcome:
  "fetchP (predict_request b) = Some outcome \<Longrightarrow> predict fetchP b = Some (predict_settled outcome)"
  by (simp add: predict_def)


subsection \<open>Loading flags along a run of events\<close>

lemma resume_flags:
  "loadingLc (loadLc_resume r s) = False" "loadingPred (loadLc_resume r s) = loadingPred s"
  "loadingPred (runPredict_resume r' s) = False" "loadingLc (runPredict_resume r' s) = loadingLc s"
  by (simp_all add: loadLc_resume_def runPredict_resume_def split: sum.splits)

lemma begin_flags:
  "loadingLc (loadLc_begin s) = True" "loadingPred (loadLc_begin s) = loadingPred s"
  "loadingPred (runPredict_begin s) = True" "loadingLc (runPredict_begin s) = loadingLc s"
  by (simp_all add: loadLc_begin_def runPredict_begin_def)

lemma invoke_loadLc_cases:
  "(ui (invoke_loadLc w) = loadLc_begin (ui w) \<and> lc_inflight (invoke_loadLc w) \<noteq> [] \<and>
    length (lc_inflight (invoke_loadLc w)) = Suc (length (lc_inflight w)) \<or>
    (\<exists>e. ui (invoke_loadLc w) = loadLc_resume (Inl e) (loadLc_begin (ui w))) \<and>
    lc_inflight (invoke_loadLc w) = lc_inflight w) \<and>
   pred_inflight (invoke_loadLc w) = pred_inflight w"
  by (auto simp: invoke_loadLc_def Let_def split: sum.splits)

lemma invoke_runPredict_cases:
  "(ui (invoke_runPredict w) = runPredict_begin (ui w) \<and> pred_inflight (invoke_runPredict w) \<noteq> [] \<and>
    length (pred_inflight (invoke_runPredict w)) = Suc (length (pred_inflight w)) \<or>
    (\<exists>r. ui (invoke_runPredict w) = runPredict_resume r (runPredict_begin (ui w))) \<and>
    pred_inflight (invoke_runPredict w) = pred_inflight w) \<and>
   lc_inflight (invoke_runPredict w) = lc_inflight w"
  by (auto simp: invoke_runPredict_def Let_def)

lemma step_flag_needs_request: "flag_needs_request w \<Longrightarrow> flag_needs_request (step e w)"
proof (cases e)
  case click_Interactive
  assume "flag_needs_request w"
  then show ?thesis
    using invoke_loadLc_cases [of "w\<lparr>ui := (ui w)\<lparr>tab := tab_interactive\<rparr>\<rparr>"] click_Interactive
    by (auto simp: flag_needs_request_def resume_flags begin_flags)
next
  case click_Predict
  assume "flag_needs_request w"
  then show ?thesis
    using invoke_runPredict_cases [of "w\<lparr>ui := (ui w)\<lparr>tab := tab_predict\<rparr>\<rparr>"] click_Predict
    by (auto simp: flag_needs_request_def resume_flags begin_flags)
next
  case click_Rescore
  assume "flag_needs_request w"
  then show ?thesis
    using invoke_runPredict_cases [of w] click_Rescore
    by (auto simp: flag_needs_request_def resume_flags begin_flags)
qed (auto simp: flag_needs_request_def resume_flags)

lemma run_flag_needs_request: "flag_needs_request w \<Longrightarrow> flag_needs_request (run evs w)"
  by (induction evs arbitrary: w) (simp_all add: step_flag_needs_request)


lemma step_request_shows_flag:
  assumes "request_shows_flag w" "non_overlapping [e] w"
  shows "request_shows_flag (step e w)"
proof (cases e)
  case click_Interactive
  then show ?thesis
    using assms invoke_loadLc_cases [of "w\<lparr>ui := (ui w)\<lparr>tab := tab_interactive\<rparr>\<rparr>"]
    by (auto simp: request_shows_flag_def resume_flags begin_flags)
next
  case click_Predict
  then show ?thesis
    using assms invoke_runPredict_cases [of "w\<lparr>ui := (ui w)\<lparr>tab := tab_predict\<rparr>\<rparr>"]
    by (auto simp: request_shows_flag_def resume_flags begin_flags)
next
  case click_Rescore
  then show ?thesis
    using assms invoke_runPredict_cases [of w]
    by (auto simp: request_shows_flag_def resume_flags begin_flags)
next
  case (lc_settles i outcome)
  then show ?thesis
    using assms by (auto simp: request_shows_flag_def resume_flags)
next
  case (pred_settles i outcome)
  then show ?thesis
    using assms by (auto simp: request_shows_flag_def resume_flags)
qed (use assms in \<open>auto simp: request_shows_flag_def\<close>)

lemma run_request_shows_flag:
  "request_shows_flag w \<Longrightarrow> non_overlapping evs w \<Longrightarrow> request_shows_flag (run evs w)"
proof (induction evs arbitrary: w)
  case Nil
  then show ?case by simp
next
  case (Cons e evs)
  from Cons.prems have "non_overlapping [e] w" "non_overlapping evs (step e w)" by simp_all
  with Cons.prems(1) Cons.IH step_request_shows_flag show ?case by simp
qed

lemma initial_world_flags: "flag_needs_request initial_world" "request_shows_flag initial_world"
  by (simp_all add: flag_needs_request_def request_shows_flag_def initial_world_def
      initial_state_def)

lemma one_invocation_flags:
  "loadingLc (loadLc fetchL s) \<longleftrightarrow>
     fetchLc fetchL (target s) (mission s) (windowLen s) (or_undefined (author s)) = None"
  "loadingPred (runPredict fetchP s) \<longleftrightarrow> \<not> mock s \<and> predict fetchP (predict_args s) = None"
  by (auto simp: loadLc_def runPredict_def Let_def resume_flags begin_flags split: option.splits)

lemma settle_clears_flag:
  "i < length (lc_inflight w) \<Longrightarrow> \<not> loadingLc (ui (step (lc_settles i outcomeL) w))"
  "j < length (pred_inflight w) \<Longrightarrow> \<not> loadingPred (ui (step (pred_settles j outcomeP) w))"
  by (simp_all add: resume_flags)

text \<open>An invocation that nothing interrupts is the two events of the interleaved model,
  one after the other.\<close>

lemma loadLc_uninterrupted:
  "ui (invoke_loadLc w) = loadLc (\<lambda>rq. None) (ui w)"
  "fetchLc_request (target (ui w)) (mission (ui w)) (windowLen (ui w))
       (or_undefined (author (ui w))) = Inr rq \<Longrightarrow> lc_inflight w = [] \<Longrightarrow>
     ui (step (lc_settles 0 outcomeL) (invoke_loadLc w)) = loadLc (\<lambda>rq. Some outcomeL) (ui w)"
  by (auto simp: invoke_loadLc_def loadLc_def fetchLc_def Let_def split: sum.splits)

lemma runPredict_uninterrupted:
  "ui (invoke_runPredict w) = runPredict (\<lambda>rq. None) (ui w)"
  "\<not> mock (ui w) \<Longrightarrow> pred_inflight w = [] \<Longrightarrow>
     ui (step (pred_settles 0 outcomeP) (invoke_runPredict w))
       = runPredict (\<lambda>rq. Some outcomeP) (ui w)"
  by (auto simp: invoke_runPredict_def runPredict_def predict_def Let_def)

text \<open>What a settling request does to the state, whatever happened since it was issued:
  a failure clears the result and sets the message, a success stores the result and
  leaves the message as it is.\<close>

lemma settle_results:
  "i < length (lc_inflight w) \<Longrightarrow> fetchLc_settled outcomeL = Inl e \<Longrightarrow>
     lc (ui (step (lc_settles i outcomeL) w)) = None \<and>
     error (ui (step (lc_settles i outcomeL) w)) = catch_message e"
  "i < length (lc_inflight w) \<Longrightarrow> fetchLc_settled outcomeL = Inr data \<Longrightarrow>
     lc (ui (step (lc_settles i outcomeL) w)) = Some data \<and>
     error (ui (step (lc_settles i outcomeL) w)) = error (ui w)"
  "j < length (pred_inflight w) \<Longrightarrow> predict_settled outcomeP = Inl e \<Longrightarrow>
     pred (ui (step (pred_settles j outcomeP) w)) = None \<and>
     error (ui (step (pred_settles j outcomeP) w)) = catch_message e"
  "j < length (pred_inflight w) \<Longrightarrow> predict_settled outcomeP = Inr result \<Longrightarrow>
     pred (ui (step (pred_settles j outcomeP) w)) = Some result \<and>
     error (ui (step (pred_settles j outcomeP) w)) = error (ui w)"
  by (simp_all add: loadLc_resume_def runPredict_resume_def)

section \<open>The displayed decision\<close>

text \<open>
  C1. The displayed label is \<open>planet_like\<close> exactly when \<open>prob_planet >= threshold\<close>,
  the boundary included, for every prediction result and every threshold, and it does
  not depend on the \<open>decision\<close> field the result carries.
\<close>

theorem C1_decision_recomputed:
  "(decision (Some r) thr = planet_like \<longleftrightarrow> prob_planet r \<ge> thr) \<and>
   (decision (Some r) thr = not_planet_like \<longleftrightarrow> \<not> prob_planet r \<ge> thr) \<and>
   decision (Some (r\<lparr>pr_decision := d\<rparr>)) thr = decision (Some r) thr"
  by (simp add: decision_def)

text \<open>At the boundary, and against a contrary \<open>decision\<close> field.\<close>

theorem C1_decision_recomputed_witness:
  "decision (Some ((fake (lit ''K2-18'') K2)\<lparr>pr_decision := Some not_planet_like\<rparr>)) 0.84
     = planet_like"
  using C1_decision_recomputed
    [of "(fake (lit ''K2-18'') K2)\<lparr>pr_decision := Some not_planet_like\<rparr>" "0.84"]
  by (simp add: fake_def)

section \<open>The plot URL\<close>

text \<open>
  The claim C2 says the plot URL encodes the mission. It does not: \<open>plotPngUrl\<close> ignores
  its mission argument, so Kepler and TESS give the same URL, whose only parameter is
  \<open>window_length\<close>.
\<close>

theorem C2_plot_url_counterexample:
  "plotPngUrl (lit ''Kepler-10'') Kepler (Integer 401) None
     = Inr (lit ''/api/plot-test?window_length=401'') \<and>
   plotPngUrl (lit ''Kepler-10'') TESS (Integer 401) None
     = Inr (lit ''/api/plot-test?window_length=401'') \<and>
   query_params (lit ''/api/plot-test?window_length=401'') = [(lit ''window_length'', lit ''401'')] \<and>
   map_of (query_params (lit ''/api/plot-test?window_length=401'')) (lit ''mission'') = None"
  by (simp add: plotPngUrl_def query_params_def Number_toString_401) (simp add: lit_def)

text \<open>
  C2, amended. The plot URL does not depend on the target or the mission. Without an
  author (absent or empty) it is \<open>/api/plot-test?window_length=N\<close>, \<open>N\<close> the window
  length as a template literal formats it, and \<open>window_length\<close> is its only parameter.
  With a non-empty author that \<open>encodeURIComponent\<close> accepts, the parameter \<open>author\<close>
  follows, its value the encoded author. When \<open>encodeURIComponent\<close> throws (a lone
  surrogate in the author), \<open>plotPngUrl\<close> throws the same.
\<close>

theorem C2_plot_url_parameters:
  "plotPngUrl tgt msn w a = plotPngUrl tgt' msn' w a \<and>
   (a = None \<or> a = Some [] \<longrightarrow>
      plotPngUrl tgt msn w a = Inr (lit ''/api/plot-test?window_length='' @ Number_toString w) \<and>
      url_path (lit ''/api/plot-test?window_length='' @ Number_toString w)
        = lit ''/api/plot-test'' \<and>
      query_params (lit ''/api/plot-test?window_length='' @ Number_toString w)
        = [(lit ''window_length'', Number_toString w)]) \<and>
   (a = Some au \<and> au \<noteq> [] \<and> encodeURIComponent au = Inr enc \<longrightarrow>
      plotPngUrl tgt msn w a
        = Inr (lit ''/api/plot-test?window_length='' @ Number_toString w @ lit ''&author='' @ enc) \<and>
      url_path (lit ''/api/plot-test?window_length='' @ Number_toString w @ lit ''&author='' @ enc)
        = lit ''/api/plot-test'' \<and>
      query_params (lit ''/api/plot-test?window_length='' @ Number_toString w @ lit ''&author='' @ enc)
        = [(lit ''window_length'', Number_toString w), (lit ''author'', enc)]) \<and>
   (a = Some au \<and> au \<noteq> [] \<and> encodeURIComponent au = Inl e \<longrightarrow>
      plotPngUrl tgt msn w a = Inl e)"
proof -
  have "plotPngUrl tgt msn w a = plotPngUrl tgt' msn' w a"
    by (simp add: plotPngUrl_def)
  moreover have "a = None \<or> a = Some [] \<longrightarrow>
      plotPngUrl tgt msn w a = Inr (lit ''/api/plot-test?window_length='' @ Number_toString w)"
    by (auto simp: plotPngUrl_def)
  moreover have "a = Some au \<and> au \<noteq> [] \<and> encodeURIComponent au = Inr enc \<longrightarrow>
      plotPngUrl tgt msn w a
        = Inr (lit ''/api/plot-test?window_length='' @ Number_toString w @ lit ''&author='' @ enc)"
    by (auto simp: plotPngUrl_def)
  moreover have "a = Some au \<and> au \<noteq> [] \<and> encodeURIComponent au = Inl e \<longrightarrow>
      plotPngUrl tgt msn w a = Inl e"
    by (simp add: plotPngUrl_def)
  ultimately show ?thesis
    using query_without_author(1,3) [of w] query_with_author(1,3) [of au enc w] by blast
qed

theorem C2_plot_url_parameters_witness:
  "plotPngUrl (lit ''TIC 307210830'') TESS (Integer 401) (Some (lit ''SPOC''))
     = Inr (lit ''/api/plot-test?window_length=401&author=SPOC'') \<and>
   query_params (lit ''/api/plot-test?window_length=401&author=SPOC'')
     = [(lit ''window_length'', lit ''401''), (lit ''author'', lit ''SPOC'')] \<and>
   plotPngUrl (lit ''TIC 307210830'') TESS (Integer 401) (Some [])
     = Inr (lit ''/api/plot-test?window_length=401'') \<and>
   plotPngUrl (lit ''TIC 307210830'') TESS (Integer 401) (Some [0xD800]) = Inl URIError"
proof -
  have enc: "encodeURIComponent (lit ''SPOC'') = Inr (lit ''SPOC'')"
    by (simp add: lit_def uriUnescaped_def)
  have bad: "encodeURIComponent [0xD800] = Inl URIError"
    by (simp add: uriUnescaped_def is_low_surrogate_def is_high_surrogate_def)
  note n = Number_toString_401
  show ?thesis
    using C2_plot_url_parameters [of "lit ''TIC 307210830''" TESS "Integer 401" "Some (lit ''SPOC'')"
        "lit ''TIC 307210830''" TESS "lit ''SPOC''" "lit ''SPOC''" URIError]
      C2_plot_url_parameters [of "lit ''TIC 307210830''" TESS "Integer 401" "Some []"
        "lit ''TIC 307210830''" TESS "[]" "[]" URIError]
      C2_plot_url_parameters [of "lit ''TIC 307210830''" TESS "Integer 401" "Some [0xD800]"
        "lit ''TIC 307210830''" TESS "[0xD800]" "[]" URIError]
      enc bad n
    by (simp add: lit_def)
qed

text \<open>
  C7. \<open>plotPngUrl\<close> gives the same result for the same mission, window length and
  author, whatever the target. Without an author the URL is
  \<open>/api/plot-test?window_length=N\<close>: its only parameter is \<open>window_length\<close>, and no
  parameter is named \<open>author\<close>; the component passes no author when its author field is
  empty. For mission Kepler, window length 401 and no author the URL is exactly
  \<open>/api/plot-test?window_length=401\<close>.
\<close>

theorem C7_plot_url_deterministic:
  "plotPngUrl tgt1 msn w a = plotPngUrl tgt2 msn w a \<and>
   plotPngUrl tgt msn w None = Inr (lit ''/api/plot-test?window_length='' @ Number_toString w) \<and>
   pngUrl (s\<lparr>author := []\<rparr>)
     = Inr (lit ''/api/plot-test?window_length='' @ Number_toString (windowLen s)) \<and>
   query_params (lit ''/api/plot-test?window_length='' @ Number_toString w)
     = [(lit ''window_length'', Number_toString w)] \<and>
   map_of (query_params (lit ''/api/plot-test?window_length='' @ Number_toString w)) (lit ''author'')
     = None \<and>
   plotPngUrl tgt Kepler (Integer 401) None = Inr (lit ''/api/plot-test?window_length=401'') \<and>
   pngUrl (s\<lparr>target := lit ''Kepler-10'', mission := Kepler, windowLen := Integer 401, author := []\<rparr>)
     = Inr (lit ''/api/plot-test?window_length=401'')"
proof -
  have "map_of [(lit ''window_length'', Number_toString w)] (lit ''author'') = None"
    by (simp add: lit_def)
  moreover note Number_toString_401
  moreover have "lit ''/api/plot-test?window_length='' @ lit ''401'' = lit ''/api/plot-test?window_length=401''"
    by (simp add: lit_def)
  ultimately show ?thesis
    by (simp add: query_without_author plotPngUrl_def pngUrl_def or_undefined_def)
qed

section \<open>The light-curve request\<close>

text \<open>
  The claim C6 says the request carries the mission. The function in the source is the
  one for the mock endpoint: it ignores its target and mission arguments, so Kepler-10
  on Kepler and TIC 307210830 on TESS give the same request, whose only parameter is
  \<open>window_length\<close>.
\<close>

theorem C6_lc_request_counterexample:
  "fetchLc_request (lit ''Kepler-10'') Kepler (Integer 401) None
     = Inr \<lparr>req_method = GET, url = lit ''/api/lc-test?window_length=401'', headers = [],
            body = None\<rparr> \<and>
   fetchLc_request (lit ''TIC 307210830'') TESS (Integer 401) None
     = Inr \<lparr>req_method = GET, url = lit ''/api/lc-test?window_length=401'', headers = [],
            body = None\<rparr> \<and>
   query_params (lit ''/api/lc-test?window_length=401'') = [(lit ''window_length'', lit ''401'')] \<and>
   map_of (query_params (lit ''/api/lc-test?window_length=401'')) (lit ''mission'') = None"
  by (simp add: fetchLc_request_def query_params_def Number_toString_401) (simp add: lit_def)

text \<open>
  C6, amended. \<open>fetchLc\<close> hands \<open>fetch\<close> a GET request with no headers and no body for
  \<open>/api/lc-test\<close>, the same for every target and mission. Without an author (absent or
  empty) its only parameter is \<open>window_length\<close>; with a non-empty author that
  \<open>encodeURIComponent\<close> accepts, the parameter \<open>author\<close> follows, its value the encoded
  author. When \<open>encodeURIComponent\<close> throws, no request is made and \<open>fetchLc\<close> rejects
  with what was thrown.
\<close>

theorem C6_lc_request:
  "fetchLc_request t m w a = fetchLc_request t' m' w a \<and>
   (a = None \<or> a = Some [] \<longrightarrow>
      fetchLc_request t m w a
        = Inr \<lparr>req_method = GET, url = lit ''/api/lc-test?window_length='' @ Number_toString w,
               headers = [], body = None\<rparr> \<and>
      url_path (lit ''/api/lc-test?window_length='' @ Number_toString w) = lit ''/api/lc-test'' \<and>
      query_params (lit ''/api/lc-test?window_length='' @ Number_toString w)
        = [(lit ''window_length'', Number_toString w)]) \<and>
   (a = Some au \<and> au \<noteq> [] \<and> encodeURIComponent au = Inr enc \<longrightarrow>
      fetchLc_request t m w a
        = Inr \<lparr>req_method = GET,
               url = lit ''/api/lc-test?window_length='' @ Number_toString w @ lit ''&author='' @ enc,
               headers = [], body = None\<rparr> \<and>
      url_path (lit ''/api/lc-test?window_length='' @ Number_toString w @ lit ''&author='' @ enc)
        = lit ''/api/lc-test'' \<and>
      query_params (lit ''/api/lc-test?window_length='' @ Number_toString w @ lit ''&author='' @ enc)
        = [(lit ''window_length'', Number_toString w), (lit ''author'', enc)]) \<and>
   (a = Some au \<and> au \<noteq> [] \<and> encodeURIComponent au = Inl e \<longrightarrow>
      fetchLc_request t m w a = Inl e \<and> fetchLc fetchL t m w a = Some (Inl e))"
proof -
  have "fetchLc_request t m w a = fetchLc_request t' m' w a"
    by (simp add: fetchLc_request_def)
  moreover have "a = None \<or> a = Some [] \<longrightarrow>
      fetchLc_request t m w a
        = Inr \<lparr>req_method = GET, url = lit ''/api/lc-test?window_length='' @ Number_toString w,
               headers = [], body = None\<rparr>"
    by (auto simp: fetchLc_request_def)
  moreover have "a = Some au \<and> au \<noteq> [] \<and> encodeURIComponent au = Inr enc \<longrightarrow>
      fetchLc_request t m w a
        = Inr \<lparr>req_method = GET,
               url = lit ''/api/lc-test?window_length='' @ Number_toString w @ lit ''&author='' @ enc,
               headers = [], body = None\<rparr>"
    by (auto simp: fetchLc_request_def)
  moreover have "a = Some au \<and> au \<noteq> [] \<and> encodeURIComponent au = Inl e \<longrightarrow>
      fetchLc_request t m w a = Inl e \<and> fetchLc fetchL t m w a = Some (Inl e)"
    by (simp add: fetchLc_request_def fetchLc_def)
  ultimately show ?thesis
    using query_without_author(2,4) [of w] query_with_author(2,4) [of au enc w] by blast
qed

theorem C6_lc_request_witness:
  "fetchLc_request (lit ''TIC 307210830'') TESS (Integer 401) (Some (lit ''QLP''))
     = Inr \<lparr>req_method = GET, url = lit ''/api/lc-test?window_length=401&author=QLP'',
            headers = [], body = None\<rparr> \<and>
   query_params (lit ''/api/lc-test?window_length=401&author=QLP'')
     = [(lit ''window_length'', lit ''401''), (lit ''author'', lit ''QLP'')] \<and>
   fetchLc_request (lit ''TIC 307210830'') TESS (Integer 401) (Some [])
     = Inr \<lparr>req_method = GET, url = lit ''/api/lc-test?window_length=401'',
            headers = [], body = None\<rparr> \<and>
   fetchLc_request (lit ''TIC 307210830'') TESS (Integer 401) (Some [0xDC00]) = Inl URIError"
proof -
  have enc: "encodeURIComponent (lit ''QLP'') = Inr (lit ''QLP'')"
    by (simp add: lit_def uriUnescaped_def)
  have bad: "encodeURIComponent [0xDC00] = Inl URIError"
    by (simp add: uriUnescaped_def is_low_surrogate_def)
  note n = Number_toString_401
  show ?thesis
    using C6_lc_request [where t = "lit ''TIC 307210830''" and m = TESS and w = "Integer 401"
        and a = "Some (lit ''QLP'')" and au = "lit ''QLP''" and enc = "lit ''QLP''"]
      C6_lc_request [where t = "lit ''TIC 307210830''" and m = TESS and w = "Integer 401"
        and a = "Some []"]
      C6_lc_request [where t = "lit ''TIC 307210830''" and m = TESS and w = "Integer 401"
        and a = "Some [0xDC00]" and au = "[0xDC00]" and e = URIError]
      enc bad n
    by (simp add: lit_def)
qed

section \<open>The window-length field\<close>




section \<open>Outcomes of the two fetch operations\<close>




section \<open>The loading flags\<close>

text \<open>
  The claim C5 says a loading flag is on exactly while an invocation is between its start
  and its resolution. Invocations can overlap, and the first to resolve turns the flag
  off: after two clicks on Interactive and one answer, a light-curve request is still
  outstanding and \<open>loadingLc\<close> is off. A mock run does the same to a real prediction that
  is still outstanding.
\<close>

theorem C5_loading_flag_counterexample:
  "lc_inflight
     (run [click_Interactive, click_Interactive,
           lc_settles 0 (Inr \<lparr>ok = True, res_text = Inr [], res_json = Inr sample_curve\<rparr>)]
        initial_world) \<noteq> [] \<and>
   \<not> loadingLc (ui
     (run [click_Interactive, click_Interactive,
           lc_settles 0 (Inr \<lparr>ok = True, res_text = Inr [], res_json = Inr sample_curve\<rparr>)]
        initial_world)) \<and>
   pred_inflight (run [setMock False, click_Predict, setMock True, click_Rescore] initial_world)
     \<noteq> [] \<and>
   \<not> loadingPred (ui (run [setMock False, click_Predict, setMock True, click_Rescore]
     initial_world))"
  by (simp add: initial_world_def initial_state_def invoke_loadLc_def invoke_runPredict_def
      fetchLc_request_def or_undefined_def loadLc_begin_def loadLc_resume_def
      runPredict_begin_def runPredict_resume_def fetchLc_settled_def Let_def)

text \<open>
  C5, amended. Each invocation turns its flag on when it begins, and every way of
  resolving turns it off: the settling of any outstanding request, success or failure,
  and a run that resolves at once (mock mode, or a URL that cannot be built). So for one
  invocation on its own the flag stays on exactly when its request never settles. Along
  any run of events from the initial state a flag that is on has a request of its
  operation outstanding, so no flag is stuck once nothing is outstanding; and along a
  run in which no invocation begins while a request of the same operation is
  outstanding, the flag is on exactly while a request is outstanding.
\<close>

theorem C5_loading_flags:
  "loadingLc (loadLc_begin s) \<and> loadingPred (runPredict_begin s) \<and>
   (loadingLc (loadLc fetchL s) \<longleftrightarrow>
      fetchLc fetchL (target s) (mission s) (windowLen s) (or_undefined (author s)) = None) \<and>
   (loadingPred (runPredict fetchP s) \<longleftrightarrow> \<not> mock s \<and> predict fetchP (predict_args s) = None) \<and>
   (i < length (lc_inflight w) \<longrightarrow> \<not> loadingLc (ui (step (lc_settles i outcomeL) w))) \<and>
   (j < length (pred_inflight w) \<longrightarrow> \<not> loadingPred (ui (step (pred_settles j outcomeP) w))) \<and>
   (loadingLc (ui (run evs initial_world)) \<longrightarrow> lc_inflight (run evs initial_world) \<noteq> []) \<and>
   (loadingPred (ui (run evs initial_world)) \<longrightarrow> pred_inflight (run evs initial_world) \<noteq> []) \<and>
   (non_overlapping evs initial_world \<longrightarrow>
      (loadingLc (ui (run evs initial_world)) \<longleftrightarrow> lc_inflight (run evs initial_world) \<noteq> []) \<and>
      (loadingPred (ui (run evs initial_world)) \<longleftrightarrow> pred_inflight (run evs initial_world) \<noteq> []))"
proof -
  have a: "flag_needs_request (run evs initial_world)"
    using run_flag_needs_request initial_world_flags(1) by blast
  have b: "request_shows_flag (run evs initial_world)" if "non_overlapping evs initial_world"
    using run_request_shows_flag [OF initial_world_flags(2) that] .
  show ?thesis
    using a b one_invocation_flags(1) [of fetchL s] one_invocation_flags(2) [of fetchP s]
      settle_clears_flag(1) [of i w outcomeL] settle_clears_flag(2) [of j w outcomeP]
    by (auto simp: flag_needs_request_def request_shows_flag_def begin_flags)
qed

theorem C5_loading_flags_witness:
  "non_overlapping
     [click_Interactive,
      lc_settles 0 (Inr \<lparr>ok = False, res_text = Inr (lit ''no data''), res_json = Inr sample_curve\<rparr>)]
     initial_world \<and>
   loadingLc (ui (run [click_Interactive] initial_world)) \<and>
   lc_inflight (run [click_Interactive] initial_world) \<noteq> [] \<and>
   \<not> loadingLc (ui (run
     [click_Interactive,
      lc_settles 0 (Inr \<lparr>ok = False, res_text = Inr (lit ''no data''), res_json = Inr sample_curve\<rparr>)]
     initial_world)) \<and>
   lc_inflight (run
     [click_Interactive,
      lc_settles 0 (Inr \<lparr>ok = False, res_text = Inr (lit ''no data''), res_json = Inr sample_curve\<rparr>)]
     initial_world) = [] \<and>
   loadingPred (runPredict (\<lambda>rq. None) (initial_state\<lparr>mock := False\<rparr>)) \<and>
   \<not> loadingPred (runPredict (\<lambda>rq. None) initial_state)"
proof -
  let ?bad = "Inr \<lparr>ok = False, res_text = Inr (lit ''no data''), res_json = Inr sample_curve\<rparr>"
  have w1: "run [click_Interactive] initial_world =
      \<lparr>ui = initial_state\<lparr>tab := tab_interactive, loadingLc := True\<rparr>,
       lc_inflight = [\<lparr>req_method = GET, url = lit ''/api/lc-test?window_length=401'',
                        headers = [], body = None\<rparr>],
       pred_inflight = []\<rparr>"
    by (simp add: initial_world_def initial_state_def invoke_loadLc_def fetchLc_request_def
        or_undefined_def loadLc_begin_def Let_def Number_toString_401) (simp add: lit_def)
  have w2: "lc_inflight (run [click_Interactive, lc_settles 0 ?bad] initial_world) = []"
    using w1 by simp
  have n: "non_overlapping [click_Interactive, lc_settles 0 ?bad] initial_world"
    by (simp add: initial_world_def)
  show ?thesis
    using C5_loading_flags [where evs = "[click_Interactive]" and s = "initial_state\<lparr>mock := False\<rparr>"
        and fetchP = "\<lambda>rq. None"]
      C5_loading_flags [where evs = "[click_Interactive, lc_settles 0 ?bad]" and s = initial_state
        and fetchP = "\<lambda>rq. None"]
      w1 w2 n
    by (simp add: initial_state_def predict_def)
qed

section \<open>The mock prediction\<close>

text \<open>
  C8. Two invocations of \<open>runPredict\<close> in mock mode with the same target and mission
  both produce a prediction result, and the same one in every field: the fixture for
  that target and mission, whatever the rest of the state and whatever the network would
  have answered.
\<close>

theorem C8_mock_deterministic:
  "mock s1 \<Longrightarrow> mock s2 \<Longrightarrow> target s1 = target s2 \<Longrightarrow> mission s1 = mission s2 \<Longrightarrow>
   \<exists>r. pred (runPredict fetch1 s1) = Some r \<and> pred (runPredict fetch2 s2) = Some r \<and>
       r = fake (target s1) (mission s1)"
  by (simp add: runPredict_def runPredict_begin_def runPredict_resume_def)

theorem C8_mock_deterministic_witness:
  "pred (runPredict (\<lambda>rq. None) initial_state) = Some (fake (lit ''Kepler-10'') Kepler) \<and>
   pred (runPredict (\<lambda>rq. Some (Inl (Error (lit ''offline''))))
           (initial_state\<lparr>threshold := 0.9, author := lit ''QLP'', error := lit ''old''\<rparr>))
     = Some (fake (lit ''Kepler-10'') Kepler)"
  using C8_mock_deterministic [of initial_state
      "initial_state\<lparr>threshold := 0.9, author := lit ''QLP'', error := lit ''old''\<rparr>"
      "\<lambda>rq. None" "\<lambda>rq. Some (Inl (Error (lit ''offline'')))"]
  by (simp add: initial_state_def)

text \<open>
  C9. In mock mode with target \<open>K2-18\<close> and mission \<open>K2\<close>, the prediction result has
  \<open>prob_planet = 0.84\<close> and the decision recomputed at threshold \<open>0.5\<close> is
  \<open>planet_like\<close>.
\<close>

theorem C9_mock_example:
  "map_option prob_planet
     (pred (runPredict fetch (s\<lparr>mock := True, target := lit ''K2-18'', mission := K2\<rparr>)))
     = Some 0.84 \<and>
   decision (pred (runPredict fetch (s\<lparr>mock := True, target := lit ''K2-18'', mission := K2\<rparr>))) 0.5
     = planet_like"
  by (simp add: runPredict_def runPredict_begin_def runPredict_resume_def fake_def decision_def)

text \<open>
  C10. In mock mode \<open>runPredict\<close> cannot fail: whatever the network would do, it ends
  with the error message empty, the fixture as prediction result and the loading flag
  off, and it hands no request to \<open>fetch\<close>.
\<close>

theorem C10_mock_never_fails:
  "mock (ui w) \<Longrightarrow>
     runPredict fetch (ui w) =
       (ui w)\<lparr>error := [], pred := Some (fake (target (ui w)) (mission (ui w))),
              loadingPred := False\<rparr> \<and>
     error (runPredict fetch (ui w)) = [] \<and>
     pred (runPredict fetch (ui w)) \<noteq> None \<and>
     ui (invoke_runPredict w) = runPredict fetch (ui w) \<and>
     pred_inflight (invoke_runPredict w) = pred_inflight w \<and>
     lc_inflight (invoke_runPredict w) = lc_inflight w"
  by (simp add: runPredict_def runPredict_begin_def runPredict_resume_def invoke_runPredict_def
      Let_def)

theorem C10_mock_never_fails_witness:
  "error (runPredict (\<lambda>rq. Some (Inl (Error (lit ''offline''))))
            (initial_state\<lparr>error := lit ''old''\<rparr>)) = [] \<and>
   pred (runPredict (\<lambda>rq. Some (Inl (Error (lit ''offline''))))
            (initial_state\<lparr>error := lit ''old''\<rparr>)) \<noteq> None \<and>
   pred_inflight (invoke_runPredict (initial_world\<lparr>ui := initial_state\<lparr>error := lit ''old''\<rparr>\<rparr>))
     = []"
  using C10_mock_never_fails [of "initial_world\<lparr>ui := initial_state\<lparr>error := lit ''old''\<rparr>\<rparr>"
      "\<lambda>rq. Some (Inl (Error (lit ''offline'')))"]
  by (simp add: initial_state_def initial_world_def)

end
